theory Spec2Isabelle
  imports Complex_Main
begin

section \<open>Python values, exceptions and the operations the downloaders use on them\<close>

text \<open>
  The three downloaders of \<^verbatim>\<open>biodumpy.inputs\<close> (\<^verbatim>\<open>COL\<close>, \<^verbatim>\<open>INaturalist\<close>, \<^verbatim>\<open>NCBI\<close>) work on
  decoded JSON: \<^verbatim>\<open>None\<close>, booleans, numbers, strings, lists and dictionaries. A string is a
  list of characters, one \<open>char\<close> per Python character. A dictionary is an association list
  read by its first entry for a key. A number is an integer or a finite fraction; the
  literals \<^verbatim>\<open>NaN\<close> and \<^verbatim>\<open>Infinity\<close>, which are not JSON, are left out.
\<close>

datatype json =
    JNull
  | JBool bool
  | JInt int
  | JFloat rat
  | JStr string
  | JArr "json list"
  | JObj "(string \<times> json) list"

text \<open>The exceptions that the modelled code can raise or catch.\<close>

datatype py_exn =
    KeyError
  | IndexError
  | TypeError
  | AttributeError
  | ValueError
  | JSONDecodeError
  | BiodumpyException
  | IncompleteRead
  | OtherException

text \<open>
  A computation that may raise is a value of \<open>py_exn + 'a\<close>; \<open>ebind\<close> sequences two of them,
  the first exception raised ends the computation.
\<close>

definition ebind :: "py_exn + 'a \<Rightarrow> ('a \<Rightarrow> py_exn + 'b) \<Rightarrow> py_exn + 'b" where
  "ebind m f = (case m of Inl e \<Rightarrow> Inl e | Inr x \<Rightarrow> f x)"

text \<open>Truth value testing (\<^verbatim>\<open>if x:\<close>).\<close>

fun truthy :: "json \<Rightarrow> bool" where
  "truthy JNull = False"
| "truthy (JBool b) = b"
| "truthy (JInt i) = (i \<noteq> 0)"
| "truthy (JFloat r) = (r \<noteq> 0)"
| "truthy (JStr s) = (s \<noteq> [])"
| "truthy (JArr xs) = (xs \<noteq> [])"
| "truthy (JObj kvs) = (kvs \<noteq> [])"

text \<open>
  Equality (\<^verbatim>\<open>==\<close>). Booleans are integers in Python, and numbers compare by value:
  \<^verbatim>\<open>True == 1 == 1.0\<close>. Dictionaries compare as maps, whatever the order of their keys.
\<close>

fun num_val :: "json \<Rightarrow> rat option" where
  "num_val (JBool b) = Some (if b then 1 else 0)"
| "num_val (JInt i) = Some (of_int i)"
| "num_val (JFloat r) = Some r"
| "num_val _ = None"

lemma size_list_member: "x \<in> set xs \<Longrightarrow> size x < Suc (size_list size xs)"
  by (induction xs) auto

lemma size_map_of:
  "map_of kvs k = Some v \<Longrightarrow> size v < Suc (size_list (size_prod (\<lambda>_. 0) size) kvs)"
  by (induction kvs) (auto split: if_splits)

function (sequential) py_eq :: "json \<Rightarrow> json \<Rightarrow> bool" where
  "py_eq JNull JNull = True"
| "py_eq (JStr a) (JStr b) = (a = b)"
| "py_eq (JArr xs) (JArr ys) = list_all2 py_eq xs ys"
| "py_eq (JObj a) (JObj b) =
     (list_all (\<lambda>k. case map_of a k of
                        None \<Rightarrow> False
                      | Some v \<Rightarrow> (case map_of b k of None \<Rightarrow> False | Some w \<Rightarrow> py_eq v w))
        (map fst a)
      \<and> list_all (\<lambda>k. map_of a k \<noteq> None) (map fst b))"
| "py_eq x y = (case num_val x of
                  None \<Rightarrow> False
                | Some m \<Rightarrow> (case num_val y of None \<Rightarrow> False | Some n \<Rightarrow> m = n))"
  by pat_completeness auto
termination
  by (relation "measure (\<lambda>(x, y). size x)") (auto simp: size_map_of size_list_member)

text \<open>Membership of a value in a list of string constants (\<^verbatim>\<open>x in ["a", "b"]\<close>).\<close>

definition in_strs :: "json \<Rightarrow> string list \<Rightarrow> bool" where
  "in_strs x ss = list_ex (\<lambda>s. py_eq x (JStr s)) ss"

text \<open>Subscription with a string key (\<^verbatim>\<open>x["k"]\<close>): only a dictionary has string keys.\<close>

fun getitem :: "json \<Rightarrow> string \<Rightarrow> py_exn + json" where
  "getitem (JObj kvs) k = (case map_of kvs k of None \<Rightarrow> Inl KeyError | Some v \<Rightarrow> Inr v)"
| "getitem _ k = Inl TypeError"

text \<open>
  Subscription with the index 0 (\<^verbatim>\<open>x[0]\<close>). The keys of a decoded JSON object are strings,
  so 0 is never a key of one.
\<close>

fun getitem0 :: "json \<Rightarrow> py_exn + json" where
  "getitem0 (JArr xs) = (case xs of [] \<Rightarrow> Inl IndexError | x # _ \<Rightarrow> Inr x)"
| "getitem0 (JStr s) = (case s of [] \<Rightarrow> Inl IndexError | c # _ \<Rightarrow> Inr (JStr [c]))"
| "getitem0 (JObj kvs) = Inl KeyError"
| "getitem0 _ = Inl TypeError"

text \<open>The method \<^verbatim>\<open>x.get("k")\<close>, which only a dictionary has.\<close>

fun get_method :: "json \<Rightarrow> string \<Rightarrow> py_exn + json" where
  "get_method (JObj kvs) k = Inr (case map_of kvs k of None \<Rightarrow> JNull | Some v \<Rightarrow> v)"
| "get_method _ k = Inl AttributeError"

text \<open>\<^verbatim>\<open>len(x)\<close> and iteration over \<^verbatim>\<open>x\<close>: a dictionary gives its keys, a string its characters.\<close>

fun py_len :: "json \<Rightarrow> py_exn + nat" where
  "py_len (JArr xs) = Inr (length xs)"
| "py_len (JStr s) = Inr (length s)"
| "py_len (JObj kvs) = Inr (length (remdups (map fst kvs)))"
| "py_len _ = Inl TypeError"

fun py_iter :: "json \<Rightarrow> py_exn + json list" where
  "py_iter (JArr xs) = Inr xs"
| "py_iter (JStr s) = Inr (map (\<lambda>c. JStr [c]) s)"
| "py_iter (JObj kvs) = Inr (map JStr (remdups (map fst kvs)))"
| "py_iter _ = Inl TypeError"

text \<open>\<^verbatim>\<open>pat in s\<close> on strings: \<^verbatim>\<open>pat\<close> occurs in \<^verbatim>\<open>s\<close>.\<close>

fun occurs_in :: "string \<Rightarrow> string \<Rightarrow> bool" where
  "occurs_in pat [] = (pat = [])"
| "occurs_in pat (c # cs) = (take (length pat) (c # cs) = pat \<or> occurs_in pat cs)"

text \<open>\<^verbatim>\<open>"k" in x\<close>: a key of a dictionary, a substring of a string, an element of a list.\<close>

fun contains_str :: "string \<Rightarrow> json \<Rightarrow> py_exn + bool" where
  "contains_str k (JObj kvs) = Inr (map_of kvs k \<noteq> None)"
| "contains_str k (JStr s) = Inr (occurs_in k s)"
| "contains_str k (JArr xs) = Inr (list_ex (\<lambda>x. py_eq x (JStr k)) xs)"
| "contains_str k _ = Inl TypeError"

text \<open>\<^verbatim>\<open>", ".join(ids)\<close>: every element has to be a string.\<close>

fun join_strs :: "string \<Rightarrow> json list \<Rightarrow> py_exn + string" where
  "join_strs sep [] = Inr []"
| "join_strs sep [JStr s] = Inr s"
| "join_strs sep (JStr s # x # xs) = ebind (join_strs sep (x # xs)) (\<lambda>r. Inr (s @ sep @ r))"
| "join_strs sep _ = Inl TypeError"

section \<open>COL: the checklist lookup\<close>

text \<open>
  What \<^verbatim>\<open>requests.get\<close> returned: the status code, and what \<^verbatim>\<open>response.json()\<close> gives,
  \<open>None\<close> when the body is not JSON and the call raises.
\<close>

record response =
  status_code :: int
  json_body :: "json option"

definition response_json :: "response \<Rightarrow> py_exn + json" where
  "response_json r = (case json_body r of None \<Rightarrow> Inl JSONDecodeError | Some v \<Rightarrow> Inr v)"

text \<open>The record \<^verbatim>\<open>COL._download\<close> builds, and the one line it may log.\<close>

record nomenclature_record =
  origin_taxon :: string
  taxon_id :: json
  status :: json
  usage :: json
  classification :: json

datatype col_log = COL_response_code int

definition ACCEPTED_TERMS :: "string list" where
  "ACCEPTED_TERMS = [''accepted'', ''provisionally accepted'']"

text \<open>Line 75: \<^verbatim>\<open>[item.get("id") for item in result if "id" in item]\<close>.\<close>

fun collect_ids :: "json list \<Rightarrow> py_exn + json list" where
  "collect_ids [] = Inr []"
| "collect_ids (item # rest) =
     ebind (contains_str ''id'' item) (\<lambda>present.
       if present
       then ebind (get_method item ''id'') (\<lambda>v.
              ebind (collect_ids rest) (\<lambda>vs. Inr (v # vs)))
       else collect_ids rest)"

text \<open>Line 82: \<^verbatim>\<open>[item for item in result if item["id"] == id_input]\<close>.\<close>

fun filter_by_id :: "string \<Rightarrow> json list \<Rightarrow> py_exn + json list" where
  "filter_by_id id_input [] = Inr []"
| "filter_by_id id_input (item # rest) =
     ebind (getitem item ''id'') (\<lambda>v.
       ebind (filter_by_id id_input rest) (\<lambda>sel.
         Inr (if py_eq v (JStr id_input) then item # sel else sel)))"

text \<open>
  Lines 74 to 82, the disambiguation: with more than one candidate the operator is shown the
  candidates' IDs and types an answer, \<open>id_input\<close>. The prompt's text is not modelled, only
  that building it raises when an ID is not a string.
\<close>

definition skip_result :: json where
  "skip_result =
     JArr [JObj [(''id'', JNull), (''usage'', JNull), (''status'', JNull),
                 (''classification'', JNull)]]"

definition disambiguate :: "string \<Rightarrow> json \<Rightarrow> py_exn + json" where
  "disambiguate id_input result =
     ebind (py_len result) (\<lambda>n.
       if n > 1
       then ebind (py_iter result) (\<lambda>items.
              ebind (collect_ids items) (\<lambda>ids.
                ebind (join_strs '', '' ids) (\<lambda>shown.
                  if id_input = ''Skip''
                  then Inr skip_result
                  else ebind (filter_by_id id_input items) (\<lambda>sel. Inr (JArr sel)))))
       else Inr result)"

text \<open>Line 91: \<^verbatim>\<open>[item for item in classification if item["id"] != synonym_id]\<close>.\<close>

fun strip_synonym :: "json \<Rightarrow> json list \<Rightarrow> py_exn + json list" where
  "strip_synonym synonym_id [] = Inr []"
| "strip_synonym synonym_id (item # rest) =
     ebind (getitem item ''id'') (\<lambda>v.
       ebind (strip_synonym synonym_id rest) (\<lambda>kept.
         Inr (if \<not> py_eq v synonym_id then item # kept else kept)))"

text \<open>Lines 84 to 93: the record of the resolved candidate, \<^verbatim>\<open>result[0]\<close>.\<close>

definition build_record :: "bool \<Rightarrow> string \<Rightarrow> json \<Rightarrow> py_exn + nomenclature_record" where
  "build_record check_syn query result =
     ebind (getitem0 result) (\<lambda>first.
     ebind (get_method first ''id'') (\<lambda>ident.
     ebind (get_method first ''usage'') (\<lambda>usg.
     ebind (if truthy usg then get_method usg ''status'' else Inr JNull) (\<lambda>stat.
     ebind (get_method first ''classification'') (\<lambda>cl.
     ebind (if check_syn \<and> \<not> in_strs stat ACCEPTED_TERMS
            then ebind (if truthy usg then get_method usg ''id'' else Inr JNull) (\<lambda>synonym_id.
                   if truthy cl
                   then ebind (py_iter cl) (\<lambda>items.
                          ebind (strip_synonym synonym_id items) (\<lambda>kept. Inr (JArr kept)))
                   else Inr JNull)
            else Inr cl) (\<lambda>cl'.
     Inr \<lparr>origin_taxon = query, taxon_id = ident, status = stat, usage = usg,
          classification = cl'\<rparr>))))))"

text \<open>
  \<^verbatim>\<open>COL._download(query)\<close> of an instance with the option \<open>check_syn\<close>, on the response the
  provider gave and the answer the operator types if asked. The result is what was logged
  and what was returned or raised.
\<close>

definition null_record :: "string \<Rightarrow> nomenclature_record" where
  "null_record query =
     \<lparr>origin_taxon = query, taxon_id = JNull, status = JNull, usage = JNull,
      classification = JNull\<rparr>"

definition COL_download ::
  "bool \<Rightarrow> string \<Rightarrow> response \<Rightarrow> string \<Rightarrow> col_log list \<times> (py_exn + nomenclature_record list)"
where
  "COL_download check_syn query resp id_input =
     (if status_code resp \<noteq> 200 then [COL_response_code (status_code resp)] else [],
      ebind (response_json resp) (\<lambda>payload.
      ebind (getitem payload ''empty'') (\<lambda>empty.
        if truthy empty
        then Inr [null_record query]
        else ebind (response_json resp) (\<lambda>again.
             ebind (getitem again ''result'') (\<lambda>result.
             ebind (disambiguate id_input result) (\<lambda>resolved.
             ebind (build_record check_syn query resolved) (\<lambda>r. Inr [r])))))))"

section \<open>Strings and list indices\<close>

text \<open>
  \<^verbatim>\<open>s.split(sep)\<close>: the pieces of \<^verbatim>\<open>s\<close> between the occurrences of \<^verbatim>\<open>sep\<close>, found from the
  left. The code splits on the constants \<^verbatim>\<open>"/"\<close> and \<^verbatim>\<open>"\n\n"\<close> only; the empty separator, on
  which Python raises, is no case of it.
\<close>

function py_split_acc :: "string \<Rightarrow> string \<Rightarrow> string \<Rightarrow> string list" where
  "py_split_acc sep piece [] = [piece]"
| "py_split_acc sep piece (c # cs) =
     (if sep \<noteq> [] \<and> take (length sep) (c # cs) = sep
      then piece # py_split_acc sep [] (drop (length sep) (c # cs))
      else py_split_acc sep (piece @ [c]) cs)"
  by pat_completeness auto
termination
  by (relation "measure (\<lambda>(sep, piece, s). length s)") auto

definition py_split :: "string \<Rightarrow> string \<Rightarrow> string list" where
  "py_split s sep = py_split_acc sep [] s"

text \<open>
  \<^verbatim>\<open>s.replace(old, new)\<close> for a non-empty \<^verbatim>\<open>old\<close>: every occurrence, found from the left, the
  search going on after the occurrence replaced.
\<close>

function py_replace :: "string \<Rightarrow> string \<Rightarrow> string \<Rightarrow> string" where
  "py_replace old new [] = []"
| "py_replace old new (c # cs) =
     (if old \<noteq> [] \<and> take (length old) (c # cs) = old
      then new @ py_replace old new (drop (length old) (c # cs))
      else c # py_replace old new cs)"
  by pat_completeness auto
termination
  by (relation "measure (\<lambda>(old, new, s). length s)") auto

text \<open>\<^verbatim>\<open>xs[-k]\<close>, the \<open>k\<close>-th element from the end.\<close>

definition from_end :: "'a list \<Rightarrow> nat \<Rightarrow> py_exn + 'a" where
  "from_end xs k =
     (if 1 \<le> k \<and> k \<le> length xs then Inr (xs ! (length xs - k)) else Inl IndexError)"

section \<open>INaturalist: the photo lookup\<close>

text \<open>The record \<^verbatim>\<open>INaturalist._download\<close> builds.\<close>

record photo_record =
  taxon :: string
  image_id :: json
  license_code :: json
  attribution :: json

definition photo_license :: "string list" where
  "photo_license =
     [''cc0'', ''cc-by'', ''cc-by-nc'', ''cc-by-nc-nd'', ''cc-by-sa'', ''cc-by-nd'', ''cc-by-nc-sa'']"

definition photo_details_empty :: "string \<Rightarrow> photo_record" where
  "photo_details_empty query =
     \<lparr>taxon = query, image_id = JNull, license_code = JNull, attribution = JNull\<rparr>"

text \<open>
  Lines 95 and 98, and again 109 and 112:
  \<^verbatim>\<open>url.split("/")[-2] + "/" + url.split("/")[-1]\<close>, then \<^verbatim>\<open>.replace("square", "medium")\<close>.
  Only a string has \<^verbatim>\<open>split\<close>.
\<close>

definition image_id_of :: "json \<Rightarrow> py_exn + string" where
  "image_id_of url =
     (case url of
        JStr u \<Rightarrow>
          ebind (from_end (py_split u ''/'') 2) (\<lambda>a.
          ebind (from_end (py_split u ''/'') 1) (\<lambda>b.
            Inr (py_replace ''square'' ''medium'' (a @ ''/'' @ b))))
      | _ \<Rightarrow> Inl AttributeError)"

text \<open>Line 73: \<^verbatim>\<open>next(filter(lambda x: x["name"] == query, results), None)\<close>.\<close>

fun first_named :: "string \<Rightarrow> json list \<Rightarrow> py_exn + json option" where
  "first_named query [] = Inr None"
| "first_named query (x # xs) =
     ebind (getitem x ''name'') (\<lambda>n.
       if py_eq n (JStr query) then Inr (Some x) else first_named query xs)"

text \<open>
  Line 91: \<^verbatim>\<open>next(filter(lambda x: x["photo"]["license_code"] in photo_license, photo_id), None)\<close>.
\<close>

fun first_licensed :: "json list \<Rightarrow> py_exn + json option" where
  "first_licensed [] = Inr None"
| "first_licensed (x # xs) =
     ebind (getitem x ''photo'') (\<lambda>photo.
     ebind (getitem photo ''license_code'') (\<lambda>code.
       if in_strs code photo_license then Inr (Some x) else first_licensed xs))"

text \<open>
  The record of a chosen photo: lines 94 to 101 for a photo of the occurrences, lines 108 to
  115 for the default photo. Both read the photo's \<^verbatim>\<open>url\<close>, \<^verbatim>\<open>license_code\<close> and
  \<^verbatim>\<open>attribution\<close>, in this order.
\<close>

definition photo_details_of :: "string \<Rightarrow> json \<Rightarrow> py_exn + photo_record" where
  "photo_details_of query photo =
     ebind (getitem photo ''url'') (\<lambda>url.
     ebind (image_id_of url) (\<lambda>ident.
     ebind (getitem photo ''license_code'') (\<lambda>code.
     ebind (getitem photo ''attribution'') (\<lambda>attr.
       Inr \<lparr>taxon = query, image_id = JStr ident, license_code = code, attribution = attr\<rparr>))))"

text \<open>Lines 85 to 106: the search in the photos of the taxon's own page, \<open>response_id\<close>.\<close>

definition occurrence_photo :: "string \<Rightarrow> response \<Rightarrow> py_exn + photo_record" where
  "occurrence_photo query response_id =
     (if status_code response_id = 200
      then ebind (response_json response_id) (\<lambda>body.
           ebind (getitem body ''results'') (\<lambda>results_id.
           ebind (getitem0 results_id) (\<lambda>first.
           ebind (getitem first ''taxon_photos'') (\<lambda>photo_id.
           ebind (py_iter photo_id) (\<lambda>entries.
           ebind (first_licensed entries) (\<lambda>found.
             case found of
               None \<Rightarrow> Inr (photo_details_empty query)
             | Some photo_details \<Rightarrow>
                 if truthy photo_details
                 then ebind (getitem photo_details ''photo'') (\<lambda>photo.
                        photo_details_of query photo)
                 else Inr (photo_details_empty query)))))))
      else Inr (photo_details_empty query))"

text \<open>
  \<^verbatim>\<open>INaturalist._download(query)\<close> on the response to the search, \<open>resp\<close>, and on what the
  provider answers for the page of a taxon, \<open>taxon_page\<close>, asked only when no default photo is
  used. The branch of line 121 is kept although line 63 has raised before it can be taken.
\<close>

definition INaturalist_download ::
  "string \<Rightarrow> response \<Rightarrow> (json \<Rightarrow> response) \<Rightarrow> py_exn + photo_record list"
where
  "INaturalist_download query resp taxon_page =
     (if status_code resp \<noteq> 200 then Inl BiodumpyException
      else if status_code resp = 200
      then ebind (response_json resp) (\<lambda>body.
           ebind (getitem body ''results'') (\<lambda>results.
           ebind (py_iter results) (\<lambda>items.
           ebind (first_named query items) (\<lambda>found.
             case found of
               None \<Rightarrow> Inr [photo_details_empty query]
             | Some results_filtered \<Rightarrow>
                 if truthy results_filtered
                 then ebind (getitem results_filtered ''id'') (\<lambda>taxon_id.
                      ebind (getitem results_filtered ''default_photo'') (\<lambda>default_photo.
                      ebind (if default_photo \<noteq> JNull
                             then ebind (getitem default_photo ''license_code'') (\<lambda>code.
                                    Inr (if truthy code then default_photo else JNull))
                             else Inr JNull) (\<lambda>photo_info.
                      ebind (if photo_info = JNull
                             then occurrence_photo query (taxon_page taxon_id)
                             else photo_details_of query photo_info) (\<lambda>photo_details.
                        Inr [photo_details]))))
                 else Inr [photo_details_empty query]))))
      else Inr [photo_details_empty query])"

section \<open>NCBI: the sequence lookup\<close>

text \<open>The configuration of an \<^verbatim>\<open>NCBI\<close> instance.\<close>

record ncbi =
  max_bp :: int
  db :: string
  step :: int
  rettype :: string

text \<open>
  A document summary as line 82 and 83 read it: \<open>summary_Length\<close> is what
  \<^verbatim>\<open>int(summary['Length'])\<close> gives and \<open>summary_Id\<close> what \<^verbatim>\<open>summary['Id']\<close> gives, \<open>None\<close> when
  that raises.
\<close>

record summary =
  summary_Id :: "string option"
  summary_Length :: "int option"

text \<open>
  What the library and the provider do, the parameters of the model:
  \<^item> \<open>esearch_count db term\<close>: lines 63 to 68, the count of the first search, or what it raises;
  \<^item> \<open>esearch_page db term retstart retmax\<close>: lines 72 to 79, the summaries of one page of the
    search, or what searching and summarising raise;
  \<^item> \<open>efetch_text ids rettype attempt\<close>: what \<^verbatim>\<open>Entrez.efetch\<close> and reading its handle give for
    a batch at the given attempt, the text or what is raised;
  \<^item> \<open>seqio_records text rettype\<close>: \<^verbatim>\<open>SeqIO.to_dict(SeqIO.parse(handle, rettype)).values()\<close>;
  \<^item> \<open>json_roundtrip\<close>: \<^verbatim>\<open>json.loads(json.dumps(seq, cls=CustomEncoder))\<close> on a parsed record.
\<close>

record 'r entrez =
  esearch_count :: "string \<Rightarrow> string \<Rightarrow> py_exn + int"
  esearch_page :: "string \<Rightarrow> string \<Rightarrow> int \<Rightarrow> int \<Rightarrow> py_exn + summary list"
  efetch_text :: "string list \<Rightarrow> string \<Rightarrow> int \<Rightarrow> py_exn + string"
  seqio_records :: "string \<Rightarrow> string \<Rightarrow> py_exn + 'r list"
  json_roundtrip :: "'r \<Rightarrow> py_exn + json"

text \<open>
  What the code leaves behind besides its result: the calls of \<^verbatim>\<open>efetch\<close>, the lines logged
  and printed, and the seconds slept. The progress bar is left out.
\<close>

datatype ncbi_msg =
    Error_retrieving_IDs
  | IncompleteRead_retrying int int
  | Error_downloading
  | Failed_to_download "string list" int

datatype ncbi_event =
    Efetch "string list" int
  | Log_warning ncbi_msg
  | Log_error ncbi_msg
  | Print ncbi_msg
  | Sleep nat

text \<open>A sequence: a block of FASTA text, or a record parsed by the library.\<close>

datatype 'r sequence = Fasta_block string | Seq_record 'r

text \<open>\<^verbatim>\<open>range(0, stop, stride)\<close>.\<close>

definition py_range :: "int \<Rightarrow> int \<Rightarrow> py_exn + int list" where
  "py_range stop stride =
     (if stride = 0 then Inl ValueError
      else if stride > 0
      then Inr (map (\<lambda>k. int k * stride) [0..<nat ((stop + stride - 1) div stride)])
      else Inr (map (\<lambda>k. int k * stride) [0..<nat ((stop + stride + 1) div stride)]))"

text \<open>
  Lines 81 to 84, the summaries of one page. The Python set \<^verbatim>\<open>id_bp_list\<close> is a list without
  repetitions, in the order of insertion; the order in which Python enumerates a set is not
  modelled. The flag is \<open>False\<close> when reading a summary raised: what was added before stays.
\<close>

fun add_summaries :: "int \<Rightarrow> summary list \<Rightarrow> string list \<Rightarrow> string list \<times> bool" where
  "add_summaries limit [] id_bp_list = (id_bp_list, True)"
| "add_summaries limit (s # rest) id_bp_list =
     (case summary_Length s of
        None \<Rightarrow> (id_bp_list, False)
      | Some bp \<Rightarrow>
          if bp \<le> limit
          then (case summary_Id s of
                  None \<Rightarrow> (id_bp_list, False)
                | Some i \<Rightarrow>
                    add_summaries limit rest
                      (if i \<notin> set id_bp_list then id_bp_list @ [i] else id_bp_list))
          else add_summaries limit rest id_bp_list)"

text \<open>Lines 70 to 89, the loop over the pages: any exception is printed and ends the loop.\<close>

fun ids_pages ::
  "ncbi \<Rightarrow> 'r entrez \<Rightarrow> string \<Rightarrow> int \<Rightarrow> int list \<Rightarrow> string list \<Rightarrow> ncbi_event list \<times> string list"
where
  "ids_pages self env term stride [] id_bp_list = ([], id_bp_list)"
| "ids_pages self env term stride (start # starts) id_bp_list =
     (case esearch_page env (db self) term start stride of
        Inl e \<Rightarrow> ([Print Error_retrieving_IDs], id_bp_list)
      | Inr summaries \<Rightarrow>
          (case add_summaries (max_bp self) summaries id_bp_list of
             (added, False) \<Rightarrow> ([Print Error_retrieving_IDs], added)
           | (added, True) \<Rightarrow> ids_pages self env term stride starts added))"

text \<open>\<^verbatim>\<open>NCBI.download_ids(term, step)\<close>.\<close>

definition download_ids ::
  "ncbi \<Rightarrow> 'r entrez \<Rightarrow> string \<Rightarrow> int \<Rightarrow> ncbi_event list \<times> (py_exn + string list)"
where
  "download_ids self env term stride =
     (case esearch_count env (db self) term of
        Inl e \<Rightarrow> ([], Inl e)
      | Inr total_ids \<Rightarrow>
          (case py_range total_ids stride of
             Inl e \<Rightarrow> ([], Inl e)
           | Inr starts \<Rightarrow>
               (case ids_pages self env term stride starts [] of
                  (events, id_bp_list) \<Rightarrow> (events, Inr id_bp_list))))"

text \<open>
  Lines 112 to 119, the body of the \<^verbatim>\<open>try\<close> at one attempt: FASTA text is cut at the empty
  lines and the last piece dropped, any other format goes to the library's parser.
\<close>

definition fetch_and_parse ::
  "ncbi \<Rightarrow> 'r entrez \<Rightarrow> string list \<Rightarrow> string \<Rightarrow> int \<Rightarrow> py_exn + 'r sequence list"
where
  "fetch_and_parse self env seq_id kind attempt =
     ebind (efetch_text env seq_id kind attempt) (\<lambda>text.
       if rettype self = ''fasta''
       then Inr (map Fasta_block (butlast (py_split text ''\<newline>\<newline>'')))
       else ebind (seqio_records env text kind) (\<lambda>records. Inr (map Seq_record records)))"

text \<open>
  Lines 109 to 129, the loop \<^verbatim>\<open>while attempt < retries\<close>. It is left by the \<^verbatim>\<open>return\<close> of a
  successful attempt, by the \<^verbatim>\<open>break\<close> after an exception other than \<^verbatim>\<open>IncompleteRead\<close>, or
  when the attempts are used up; the last two leave the value of \<^verbatim>\<open>attempt\<close> to line 131.
\<close>

datatype 'a loop_exit = Returned 'a | Left_loop int

function retry_loop ::
  "ncbi \<Rightarrow> 'r entrez \<Rightarrow> string list \<Rightarrow> string \<Rightarrow> int \<Rightarrow> int
     \<Rightarrow> ncbi_event list \<times> 'r sequence list loop_exit"
where
  "retry_loop self env seq_id kind retries attempt =
     (if attempt < retries
      then (case fetch_and_parse self env seq_id kind attempt of
              Inr seqs \<Rightarrow> ([Efetch seq_id attempt], Returned seqs)
            | Inl e \<Rightarrow>
                if e = IncompleteRead
                then (case retry_loop self env seq_id kind retries (attempt + 1) of
                        (events, exit) \<Rightarrow>
                          ([Efetch seq_id attempt,
                            Log_warning (IncompleteRead_retrying (attempt + 1) retries),
                            Print (IncompleteRead_retrying (attempt + 1) retries),
                            Sleep 2] @ events, exit))
                else ([Efetch seq_id attempt, Log_error Error_downloading,
                       Print Error_downloading], Left_loop attempt))
      else ([], Left_loop attempt))"
  by pat_completeness auto
termination
  by (relation "measure (\<lambda>(self, env, seq_id, kind, retries, attempt). nat (retries - attempt))")
    auto

text \<open>
  \<^verbatim>\<open>NCBI.download_seq(seq_id, rettype, retries=3)\<close>. The result \<open>None\<close> is Python's \<^verbatim>\<open>None\<close>,
  returned when the function ends without a \<^verbatim>\<open>return\<close>.
\<close>

definition download_seq ::
  "ncbi \<Rightarrow> 'r entrez \<Rightarrow> string list \<Rightarrow> string \<Rightarrow> int
     \<Rightarrow> ncbi_event list \<times> 'r sequence list option"
where
  "download_seq self env seq_id kind retries =
     (case retry_loop self env seq_id kind retries 0 of
        (events, Returned seqs) \<Rightarrow> (events, Some seqs)
      | (events, Left_loop attempt) \<Rightarrow>
          (events @ (if attempt = retries
                     then [Log_error (Failed_to_download seq_id retries),
                           Print (Failed_to_download seq_id retries)]
                     else []),
           None))"

text \<open>
  Modelled from the spec: \<^verbatim>\<open>split_to_batches\<close> of \<^verbatim>\<open>biodumpy.utils\<close> is not among the source
  files. Section 4.3 of the specification has the IDs "grouped into the same batch size":
  consecutive groups of \<open>n\<close> IDs, the last one shorter when the IDs run out.
\<close>

function split_to_batches :: "'a list \<Rightarrow> int \<Rightarrow> 'a list list" where
  "split_to_batches xs n =
     (if n \<le> 0 \<or> xs = [] then [] else take (nat n) xs # split_to_batches (drop (nat n) xs) n)"
  by pat_completeness auto
termination
  by (relation "measure (\<lambda>(xs, n). length xs)") auto

text \<open>Line 42 on the sequences of one batch; the round trip leaves a string as it is.\<close>

fun encode_all :: "'r entrez \<Rightarrow> 'r sequence list \<Rightarrow> py_exn + json list" where
  "encode_all env [] = Inr []"
| "encode_all env (Fasta_block s # rest) =
     ebind (encode_all env rest) (\<lambda>js. Inr (JStr s # js))"
| "encode_all env (Seq_record r # rest) =
     ebind (json_roundtrip env r) (\<lambda>j. ebind (encode_all env rest) (\<lambda>js. Inr (j # js)))"

text \<open>
  Lines 40 to 43, the loop over the batches. Line 41 iterates over what \<^verbatim>\<open>download_seq\<close>
  returns; iterating over \<^verbatim>\<open>None\<close> raises \<^verbatim>\<open>TypeError\<close>.
\<close>

fun download_batches ::
  "ncbi \<Rightarrow> 'r entrez \<Rightarrow> string list list \<Rightarrow> json list \<Rightarrow> ncbi_event list \<times> (py_exn + json list)"
where
  "download_batches self env [] payload = ([], Inr payload)"
| "download_batches self env (seq_id # rest) payload =
     (case download_seq self env seq_id (rettype self) 3 of
        (events, None) \<Rightarrow> (events, Inl TypeError)
      | (events, Some seqs) \<Rightarrow>
          (case encode_all env seqs of
             Inl e \<Rightarrow> (events, Inl e)
           | Inr js \<Rightarrow>
               (case download_batches self env rest (payload @ js) of
                  (later, outcome) \<Rightarrow> (events @ later, outcome))))"

text \<open>\<^verbatim>\<open>NCBI.download(query)\<close>.\<close>

definition NCBI_download ::
  "ncbi \<Rightarrow> 'r entrez \<Rightarrow> string \<Rightarrow> ncbi_event list \<times> (py_exn + json list)"
where
  "NCBI_download self env query =
     (case download_ids self env query (step self) of
        (events, Inl e) \<Rightarrow> (events, Inl e)
      | (events, Inr ids_list) \<Rightarrow>
          (case download_batches self env (split_to_batches ids_list (step self)) [] of
             (later, outcome) \<Rightarrow> (events @ later, outcome)))"

section \<open>Vocabulary of the statements\<close>

text \<open>
  A candidate of the checklist search, as the statements below need it: a dictionary whose
  \<^verbatim>\<open>id\<close> is a string; \<open>cand_id\<close> reads that ID.
\<close>

fun cand_id :: "json \<Rightarrow> string option" where
  "cand_id (JObj fs) = (case map_of fs ''id'' of Some (JStr s) \<Rightarrow> Some s | _ \<Rightarrow> None)"
| "cand_id _ = None"

text \<open>
  The ID nested in a usage (\<^verbatim>\<open>usage.get("id") if usage else None\<close>, where that does not
  raise), and whether a classification entry carries a given ID.
\<close>

definition nested_id :: "json \<Rightarrow> json" where
  "nested_id usg =
     (if truthy usg then (case get_method usg ''id'' of Inr v \<Rightarrow> v | Inl e \<Rightarrow> JNull) else JNull)"

definition entry_matches :: "json \<Rightarrow> json \<Rightarrow> bool" where
  "entry_matches sid item = (case getitem item ''id'' of Inr v \<Rightarrow> py_eq v sid | Inl e \<Rightarrow> False)"

text \<open>
  What one attempt of \<^verbatim>\<open>download_seq\<close> that ends in \<^verbatim>\<open>IncompleteRead\<close> leaves behind: the
  call, the warning logged and printed, the sleep of two seconds.
\<close>

definition failed_attempt :: "string list \<Rightarrow> int \<Rightarrow> int \<Rightarrow> ncbi_event list" where
  "failed_attempt seq_id retries attempt =
     [Efetch seq_id attempt,
      Log_warning (IncompleteRead_retrying (attempt + 1) retries),
      Print (IncompleteRead_retrying (attempt + 1) retries),
      Sleep 2]"

text \<open>
  An ID is admitted when a page of the search holds a summary of it whose length is at most
  \<open>max_bp\<close>.
\<close>

definition admitted :: "ncbi \<Rightarrow> 'r entrez \<Rightarrow> string \<Rightarrow> int \<Rightarrow> string \<Rightarrow> bool" where
  "admitted self env term stride i =
     (\<exists>start summaries s bp.
        esearch_page env (db self) term start stride = Inr summaries \<and> s \<in> set summaries
      \<and> summary_Id s = Some i \<and> summary_Length s = Some bp \<and> bp \<le> max_bp self)"

section \<open>Example responses\<close>

text \<open>Responses of the checklist provider, cut down to the fields the code reads.\<close>

definition no_match_response :: response where
  "no_match_response =
     \<lparr>status_code = 200,
      json_body = Some (JObj [(''offset'', JInt 0), (''limit'', JInt 10), (''total'', JInt 0),
                              (''last'', JBool True), (''empty'', JBool True)])\<rparr>"

definition viridis :: json where
  "viridis =
     JObj [(''id'', JStr ''NPDX''),
           (''usage'', JObj [(''id'', JStr ''NPDX''), (''status'', JStr ''accepted'')]),
           (''classification'',
              JArr [JObj [(''id'', JStr ''NPDX''), (''name'', JStr ''Bufotes viridis'')],
                    JObj [(''id'', JStr ''62G9''), (''name'', JStr ''Bufotes'')]])]"

definition roseus :: json where
  "roseus =
     JObj [(''id'', JStr ''MHS2''),
           (''usage'', JObj [(''id'', JStr ''MHS2''), (''status'', JStr ''synonym'')]),
           (''classification'',
              JArr [JObj [(''id'', JStr ''MHS2''), (''name'', JStr ''Bufo roseus'')],
                    JObj [(''id'', JStr ''NPDX''), (''name'', JStr ''Bufotes viridis'')],
                    JObj [(''id'', JStr ''62G9''), (''name'', JStr ''Bufotes'')]])]"

definition two_matches_response :: response where
  "two_matches_response =
     \<lparr>status_code = 200,
      json_body = Some (JObj [(''total'', JInt 2), (''result'', JArr [viridis, roseus]),
                              (''empty'', JBool False)])\<rparr>"

definition bare_synonym_response :: response where
  "bare_synonym_response =
     \<lparr>status_code = 200,
      json_body = Some (JObj [(''total'', JInt 1),
                              (''result'',
                                 JArr [JObj [(''id'', JStr ''MHS2''),
                                             (''usage'', JObj [(''id'', JStr ''MHS2''),
                                                               (''status'', JStr ''synonym'')]),
                                             (''classification'', JArr [])]]),
                              (''empty'', JBool False)])\<rparr>"

text \<open>Responses of the observation provider, cut down to the fields the code reads.\<close>

definition bufo_search :: response where
  "bufo_search =
     \<lparr>status_code = 200,
      json_body = Some (JObj [(''total_results'', JInt 1),
        (''results'',
           JArr [JObj [(''id'', JInt 326296), (''name'', JStr ''Bufo bufo''),
                       (''default_photo'',
                          JObj [(''id'', JInt 777), (''license_code'', JStr ''pd''),
                                (''attribution'', JStr ''no rights reserved''),
                                (''url'', JStr ''https://static.inaturalist.org/photos/777/square.jpg'')])]])])\<rparr>"

definition alytes_photo :: json where
  "alytes_photo =
     JObj [(''id'', JInt 200), (''license_code'', JStr ''cc-by''),
           (''attribution'', JStr ''(c) A. Muletensis, some rights reserved (CC BY)''),
           (''url'', JStr ''https://inaturalist-open-data.s3.amazonaws.com/photos/200/square.jpg'')]"

definition alytes_taxon :: json where
  "alytes_taxon =
     JObj [(''id'', JInt 25455), (''name'', JStr ''Alytes muletensis''),
           (''default_photo'', alytes_photo)]"

definition alytes_search :: response where
  "alytes_search =
     \<lparr>status_code = 200,
      json_body = Some (JObj [(''total_results'', JInt 2),
        (''results'',
           JArr [JObj [(''id'', JInt 25454), (''name'', JStr ''Alytes''),
                       (''default_photo'', JNull)],
                 alytes_taxon])])\<rparr>"

definition hyla_taxon :: json where
  "hyla_taxon =
     JObj [(''id'', JInt 24268), (''name'', JStr ''Hyla meridionalis''),
           (''default_photo'', JNull)]"

definition hyla_search :: response where
  "hyla_search =
     \<lparr>status_code = 200,
      json_body = Some (JObj [(''total_results'', JInt 1), (''results'', JArr [hyla_taxon])])\<rparr>"

definition hyla_photo :: json where
  "hyla_photo =
     JObj [(''id'', JInt 201), (''license_code'', JStr ''cc-by-nc''),
           (''attribution'', JStr ''(c) H. Meridionalis, some rights reserved (CC BY-NC)''),
           (''url'', JStr ''https://inaturalist-open-data.s3.amazonaws.com/photos/201/icon.jpg'')]"

definition hyla_entry :: json where
  "hyla_entry = JObj [(''taxon_id'', JInt 24268), (''photo'', hyla_photo)]"

definition hyla_first :: json where
  "hyla_first =
     JObj [(''id'', JInt 24268),
           (''taxon_photos'',
              JArr [JObj [(''taxon_id'', JInt 24268),
                          (''photo'',
                             JObj [(''id'', JInt 199), (''license_code'', JNull),
                                   (''attribution'', JStr ''(c) somebody, all rights reserved''),
                                   (''url'', JStr ''https://static.inaturalist.org/photos/199/square.jpg'')])],
                    hyla_entry])]"

definition hyla_page :: "json \<Rightarrow> response" where
  "hyla_page tid =
     (if tid = JInt 24268
      then \<lparr>status_code = 200,
            json_body = Some (JObj [(''total_results'', JInt 1), (''results'', JArr [hyla_first])])\<rparr>
      else \<lparr>status_code = 404, json_body = None\<rparr>)"

text \<open>
  An \<^verbatim>\<open>NCBI\<close> instance with batches of two, and a provider with six hits on three pages:
  one sequence is too long, one ID comes twice. Fetching the batch of 1001 and 1002 fails
  with an error that is not an incomplete read, fetching 1004 and 1005 succeeds at the third
  attempt after two incomplete reads, and fetching 1003 alone never succeeds.
\<close>

definition nucleotide :: ncbi where
  "nucleotide = \<lparr>max_bp = 5000, db = ''nucleotide'', step = 2, rettype = ''fasta''\<rparr>"

definition flaky_provider :: "unit entrez" where
  "flaky_provider =
     \<lparr>esearch_count = (\<lambda>d term. Inr 6),
      esearch_page = (\<lambda>d term start retmax.
         if start = 0
         then Inr [\<lparr>summary_Id = Some ''1001'', summary_Length = Some 700\<rparr>,
                   \<lparr>summary_Id = Some ''1003'', summary_Length = Some 9000\<rparr>]
         else if start = 2
         then Inr [\<lparr>summary_Id = Some ''1002'', summary_Length = Some 800\<rparr>,
                   \<lparr>summary_Id = Some ''1001'', summary_Length = Some 700\<rparr>]
         else Inr [\<lparr>summary_Id = Some ''1004'', summary_Length = Some 1200\<rparr>,
                   \<lparr>summary_Id = Some ''1005'', summary_Length = Some 300\<rparr>]),
      efetch_text = (\<lambda>ids kind attempt.
         if ids = [''1001'', ''1002''] then Inl OtherException
         else if ids = [''1003''] then Inl IncompleteRead
         else if attempt < 2 then Inl IncompleteRead
         else Inr ''>1004 Alytes\<newline>ACGT\<newline>\<newline>>1005 Alytes\<newline>TTGA\<newline>\<newline>''),
      seqio_records = (\<lambda>text kind. Inr []),
      json_roundtrip = (\<lambda>r. Inr JNull)\<rparr>"

section \<open>Basic facts\<close>

lemma ebind_Inl [simp]: "ebind (Inl e) f = Inl e"
  by (simp add: ebind_def)

lemma ebind_Inr [simp]: "ebind (Inr x) f = f x"
  by (simp add: ebind_def)

section \<open>COL: facts about the disambiguation and the record\<close>

lemma py_eq_JStr [simp]: "py_eq v (JStr s) = (v = JStr s)"
  by (cases v) auto

lemma cand_idD: "cand_id c = Some s \<Longrightarrow> \<exists>fs. c = JObj fs \<and> map_of fs ''id'' = Some (JStr s)"
  by (cases c) (auto split: option.splits json.splits)

lemma collect_ids_candidates:
  "list_all (\<lambda>c. cand_id c \<noteq> None) items \<Longrightarrow>
   collect_ids items = Inr (map (\<lambda>c. JStr (the (cand_id c))) items)"
proof (induction items)
  case Nil
  then show ?case by simp
next
  case (Cons c items)
  then obtain s where "cand_id c = Some s" by auto
  then obtain fs where "c = JObj fs" "map_of fs ''id'' = Some (JStr s)"
    using cand_idD by blast
  with Cons show ?case by simp
qed

lemma join_strs_strings: "\<exists>r. join_strs sep (map (\<lambda>c. JStr (f c)) items) = Inr r"
proof (induction items)
  case Nil
  then show ?case by simp
next
  case (Cons c items)
  then show ?case by (cases items) auto
qed

lemma filter_by_id_candidates:
  "list_all (\<lambda>c. cand_id c \<noteq> None) items \<Longrightarrow>
   filter_by_id a items = Inr (filter (\<lambda>c. cand_id c = Some a) items)"
proof (induction items)
  case Nil
  then show ?case by simp
next
  case (Cons c items)
  then obtain s where s: "cand_id c = Some s" by auto
  then obtain fs where "c = JObj fs" "map_of fs ''id'' = Some (JStr s)"
    using cand_idD by blast
  with Cons s show ?case by auto
qed

lemma disambiguate_candidates:
  assumes "length items > 1" and "list_all (\<lambda>c. cand_id c \<noteq> None) items"
  shows "disambiguate a (JArr items) =
           (if a = ''Skip'' then Inr skip_result
            else Inr (JArr (filter (\<lambda>c. cand_id c = Some a) items)))"
proof -
  obtain r where "join_strs '', '' (map (\<lambda>c. JStr (the (cand_id c))) items) = Inr r"
    using join_strs_strings [of "'', ''" "\<lambda>c. the (cand_id c)" items] by blast
  with assms show ?thesis
    by (simp add: disambiguate_def collect_ids_candidates filter_by_id_candidates)
qed

lemma COL_download_nonempty:
  assumes "json_body resp = Some (JObj kvs)"
    and "map_of kvs ''empty'' = Some e" and "\<not> truthy e"
    and "map_of kvs ''result'' = Some result"
  shows "snd (COL_download cs q resp a) =
           ebind (disambiguate a result) (\<lambda>resolved.
             ebind (build_record cs q resolved) (\<lambda>r. Inr [r]))"
  using assms by (simp add: COL_download_def response_json_def)

lemma build_record_first: "build_record cs q (JArr (c # rest)) = build_record cs q (JArr [c])"
  by (simp add: build_record_def)

lemma find_filter: "find P xs = Some c \<Longrightarrow> \<exists>rest. filter P xs = c # rest"
  by (induction xs) (auto split: if_splits)

lemma build_record_skip: "build_record cs q skip_result = Inr (null_record q)"
  by (simp add: build_record_def skip_result_def null_record_def)

lemma build_record_fields:
  assumes "build_record cs q (JArr [c]) = Inr r"
  shows "origin_taxon r = q" and "get_method c ''id'' = Inr (taxon_id r)"
    and "get_method c ''usage'' = Inr (usage r)"
proof -
  from assms obtain fs where c: "c = JObj fs"
    by (cases c) (auto simp: build_record_def)
  from assms show "origin_taxon r = q" "get_method c ''id'' = Inr (taxon_id r)"
    "get_method c ''usage'' = Inr (usage r)"
    unfolding build_record_def c
    by (auto simp: ebind_def split: sum.splits if_splits)
qed

lemma strip_synonym_filter:
  "strip_synonym sid items = Inr kept \<Longrightarrow> kept = filter (\<lambda>item. \<not> entry_matches sid item) items"
proof (induction items arbitrary: kept)
  case Nil
  then show ?case by simp
next
  case (Cons item items)
  then show ?case
    by (auto simp: ebind_def entry_matches_def split: sum.splits if_splits)
qed

lemma strip_synonym_total:
  "list_all (\<lambda>e. \<exists>v. getitem e ''id'' = Inr v) es \<Longrightarrow> \<exists>kept. strip_synonym sid es = Inr kept"
  by (induction es) auto

lemma build_record_total:
  assumes "get_method chosen ''id'' = Inr ident"
    and "get_method chosen ''usage'' = Inr usg" and "\<not> truthy usg \<or> (\<exists>u. usg = JObj u)"
    and "get_method chosen ''classification'' = Inr cl"
    and "\<not> truthy cl \<or> (\<exists>es. cl = JArr es \<and> list_all (\<lambda>e. \<exists>v. getitem e ''id'' = Inr v) es)"
  shows "\<exists>r. build_record cs q (JArr [chosen]) = Inr r"
proof (cases "truthy cl")
  case False
  with assms(1-4) show ?thesis
    by (auto simp: build_record_def)
next
  case True
  with assms(5) obtain es where es: "cl = JArr es"
    "list_all (\<lambda>e. \<exists>v. getitem e ''id'' = Inr v) es" by blast
  have "\<exists>kept. strip_synonym sid es = Inr kept" for sid
    using strip_synonym_total [OF es(2)] .
  then obtain k1 k2 where
    "strip_synonym JNull es = Inr k1"
    "strip_synonym (case get_method usg ''id'' of Inr v \<Rightarrow> v | Inl e \<Rightarrow> JNull) es = Inr k2"
    by metis
  with assms(1-4) es(1) show ?thesis
    by (auto simp: build_record_def)
qed

lemmas col_examples =
  no_match_response_def two_matches_response_def bare_synonym_response_def viridis_def roseus_def

section \<open>COL: the claims\<close>

text \<open>
  C4. When the provider's response is marked empty (the decoded body is a dictionary whose
  \<^verbatim>\<open>empty\<close> entry is true), \<^verbatim>\<open>COL._download\<close> returns exactly the one-element list
  holding the null record of the query: \<open>origin_taxon\<close> is the query, every other field is
  null. The status code, the option and the operator's answer play no part.
\<close>

theorem COL_empty_response_null_record:
  assumes "json_body resp = Some (JObj kvs)"
    and "map_of kvs ''empty'' = Some e" and "truthy e"
  shows "snd (COL_download check_syn query resp id_input) =
           Inr [\<lparr>origin_taxon = query, taxon_id = JNull, status = JNull, usage = JNull,
                 classification = JNull\<rparr>]"
  using assms by (simp add: COL_download_def response_json_def null_record_def)

theorem COL_empty_response_null_record_witness:
  "snd (COL_download False ''Unknown Fake Taxonname'' no_match_response []) =
     Inr [\<lparr>origin_taxon = ''Unknown Fake Taxonname'', taxon_id = JNull, status = JNull,
           usage = JNull, classification = JNull\<rparr>]"
  using COL_empty_response_null_record
    [where resp = no_match_response
       and kvs = "[(''offset'', JInt 0), (''limit'', JInt 10), (''total'', JInt 0),
                   (''last'', JBool True), (''empty'', JBool True)]"
       and e = "JBool True" and check_syn = False and query = "''Unknown Fake Taxonname''"
       and id_input = "[]"]
  by (simp add: no_match_response_def)

text \<open>
  C5. With more than one candidate, each a dictionary with a string ID: the answer
  \<^verbatim>\<open>Skip\<close> gives the null record of the query; an answer other than \<^verbatim>\<open>Skip\<close> that is the ID
  of a candidate gives what lines 84 to 93 build from the first candidate with that ID alone,
  as from a single search result. Where a record is built, its \<open>taxon_id\<close> is the answer, its
  \<open>usage\<close> the candidate's and its \<open>origin_taxon\<close> the query; and a record is built whenever
  the candidate's usage is a dictionary or false and its classification is false or a list
  of entries that have an \<^verbatim>\<open>id\<close>.
\<close>

theorem COL_disambiguation_answer:
  assumes "json_body resp = Some (JObj kvs)"
    and "map_of kvs ''empty'' = Some e" and "\<not> truthy e"
    and "map_of kvs ''result'' = Some (JArr items)" and "length items > 1"
    and "list_all (\<lambda>c. cand_id c \<noteq> None) items"
  shows "snd (COL_download check_syn query resp ''Skip'') =
           Inr [\<lparr>origin_taxon = query, taxon_id = JNull, status = JNull, usage = JNull,
                 classification = JNull\<rparr>]
       \<and> (id_input \<noteq> ''Skip'' \<and> find (\<lambda>c. cand_id c = Some id_input) items = Some chosen \<longrightarrow>
            snd (COL_download check_syn query resp id_input) =
              ebind (build_record check_syn query (JArr [chosen])) (\<lambda>r. Inr [r])
          \<and> (\<forall>r. build_record check_syn query (JArr [chosen]) = Inr r \<longrightarrow>
                 origin_taxon r = query \<and> taxon_id r = JStr id_input
               \<and> get_method chosen ''usage'' = Inr (usage r))
          \<and> (get_method chosen ''usage'' = Inr usg \<and> (\<not> truthy usg \<or> (\<exists>u. usg = JObj u))
              \<and> get_method chosen ''classification'' = Inr cl
              \<and> (\<not> truthy cl
                 \<or> (\<exists>es. cl = JArr es \<and> list_all (\<lambda>entry. \<exists>v. getitem entry ''id'' = Inr v) es)) \<longrightarrow>
                (\<exists>r. snd (COL_download check_syn query resp id_input) = Inr [r]
                    \<and> origin_taxon r = query \<and> taxon_id r = JStr id_input \<and> usage r = usg)))"
proof -
  have skip: "snd (COL_download check_syn query resp ''Skip'') =
           Inr [\<lparr>origin_taxon = query, taxon_id = JNull, status = JNull, usage = JNull,
                 classification = JNull\<rparr>]"
    using COL_download_nonempty [OF assms(1-4)] disambiguate_candidates [OF assms(5,6)]
    by (simp add: build_record_skip) (simp add: null_record_def)
  have answer: "snd (COL_download check_syn query resp id_input) =
              ebind (build_record check_syn query (JArr [chosen])) (\<lambda>r. Inr [r])"
    if a: "id_input \<noteq> ''Skip''" "find (\<lambda>c. cand_id c = Some id_input) items = Some chosen"
  proof -
    from find_filter [OF a(2)]
    obtain rest where "filter (\<lambda>c. cand_id c = Some id_input) items = chosen # rest"
      by blast
    then have "disambiguate id_input (JArr items) = Inr (JArr (chosen # rest))"
      using a disambiguate_candidates [OF assms(5,6)] by simp
    then show ?thesis
      using COL_download_nonempty [OF assms(1-4)]
        build_record_first [of check_syn query chosen rest]
      by simp
  qed
  have ident: "get_method chosen ''id'' = Inr (JStr id_input)"
    if a: "find (\<lambda>c. cand_id c = Some id_input) items = Some chosen"
  proof -
    from a have "cand_id chosen = Some id_input"
      by (auto simp: find_Some_iff)
    then obtain fs where "chosen = JObj fs" "map_of fs ''id'' = Some (JStr id_input)"
      using cand_idD by blast
    then show ?thesis by simp
  qed
  have fields: "origin_taxon r = query \<and> taxon_id r = JStr id_input
               \<and> get_method chosen ''usage'' = Inr (usage r)"
    if a: "find (\<lambda>c. cand_id c = Some id_input) items = Some chosen"
      and r: "build_record check_syn query (JArr [chosen]) = Inr r" for r
    using build_record_fields [OF r] ident [OF a] by auto
  have built: "\<exists>r. snd (COL_download check_syn query resp id_input) = Inr [r]
                    \<and> origin_taxon r = query \<and> taxon_id r = JStr id_input \<and> usage r = usg"
    if a: "id_input \<noteq> ''Skip''" "find (\<lambda>c. cand_id c = Some id_input) items = Some chosen"
      and u: "get_method chosen ''usage'' = Inr usg" "\<not> truthy usg \<or> (\<exists>u. usg = JObj u)"
      and c: "get_method chosen ''classification'' = Inr cl"
        "\<not> truthy cl
         \<or> (\<exists>es. cl = JArr es \<and> list_all (\<lambda>entry. \<exists>v. getitem entry ''id'' = Inr v) es)"
  proof -
    obtain r where r: "build_record check_syn query (JArr [chosen]) = Inr r"
      using build_record_total [OF ident [OF a(2)] u c] by blast
    with answer [OF a] have "snd (COL_download check_syn query resp id_input) = Inr [r]"
      by simp
    moreover from fields [OF a(2) r] u(1) have "usage r = usg" by simp
    ultimately show ?thesis using fields [OF a(2) r] by blast
  qed
  from skip answer fields built show ?thesis by blast
qed

theorem COL_disambiguation_answer_witness:
  "snd (COL_download False ''Bufotes viridis'' two_matches_response ''Skip'') =
     Inr [\<lparr>origin_taxon = ''Bufotes viridis'', taxon_id = JNull, status = JNull, usage = JNull,
           classification = JNull\<rparr>]
   \<and> snd (COL_download False ''Bufotes viridis'' two_matches_response ''NPDX'') =
     Inr [\<lparr>origin_taxon = ''Bufotes viridis'', taxon_id = JStr ''NPDX'',
           status = JStr ''accepted'',
           usage = JObj [(''id'', JStr ''NPDX''), (''status'', JStr ''accepted'')],
           classification =
             JArr [JObj [(''id'', JStr ''NPDX''), (''name'', JStr ''Bufotes viridis'')],
                   JObj [(''id'', JStr ''62G9''), (''name'', JStr ''Bufotes'')]]\<rparr>]"
  using COL_disambiguation_answer
    [where resp = two_matches_response
       and kvs = "[(''total'', JInt 2), (''result'', JArr [viridis, roseus]),
                   (''empty'', JBool False)]"
       and e = "JBool False" and items = "[viridis, roseus]" and id_input = "''NPDX''"
       and chosen = viridis and check_syn = False and query = "''Bufotes viridis''"]
  by (simp add: col_examples build_record_def in_strs_def ACCEPTED_TERMS_def)

text \<open>
  C6. A status code other than 200 is logged as an error and nothing more: the outcome is the
  one the same body gives under status 200, so the body is decoded as JSON all the same, and a
  body that is not JSON raises the decoder's error.
\<close>

theorem COL_non_200_logged_not_raised:
  assumes "status_code resp \<noteq> 200"
  shows "fst (COL_download check_syn query resp id_input) = [COL_response_code (status_code resp)]
       \<and> snd (COL_download check_syn query resp id_input) =
           snd (COL_download check_syn query (resp\<lparr>status_code := 200\<rparr>) id_input)
       \<and> (json_body resp = None \<longrightarrow>
            snd (COL_download check_syn query resp id_input) = Inl JSONDecodeError)"
  using assms by (simp add: COL_download_def response_json_def cong: if_cong)

theorem COL_non_200_logged_not_raised_witness:
  "fst (COL_download False ''Bufotes viridis'' (two_matches_response\<lparr>status_code := 503\<rparr>) ''NPDX'')
     = [COL_response_code 503]
   \<and> snd (COL_download False ''Bufotes viridis'' (two_matches_response\<lparr>status_code := 503\<rparr>) ''NPDX'')
     = snd (COL_download False ''Bufotes viridis'' two_matches_response ''NPDX'')
   \<and> snd (COL_download False ''Bufotes viridis'' \<lparr>status_code = 404, json_body = None\<rparr> ''NPDX'')
     = Inl JSONDecodeError"
  using COL_non_200_logged_not_raised
    [where resp = "two_matches_response\<lparr>status_code := 503\<rparr>" and check_syn = False
       and query = "''Bufotes viridis''" and id_input = "''NPDX''"]
    COL_non_200_logged_not_raised
    [where resp = "\<lparr>status_code = 404, json_body = None\<rparr>" and check_syn = False
       and query = "''Bufotes viridis''" and id_input = "''NPDX''"]
  by (simp add: two_matches_response_def COL_download_def response_json_def)

text \<open>
  C9. With \<open>check_syn\<close> enabled, for the resolved candidate \<open>chosen\<close> and the record \<open>r\<close> built
  from it: when the status is one of the accepted terms the classification is the provider's,
  unchanged; when it is not and the provider's classification is a non-empty list, the
  classification is that list without the entries whose \<^verbatim>\<open>id\<close> equals the ID nested in the
  usage, the other entries kept as they are and in their order; when it is not and the
  provider's classification is empty or null, the classification is null.
\<close>

theorem check_syn_classification:
  assumes "build_record True query (JArr (chosen # others)) = Inr r"
    and "get_method chosen ''classification'' = Inr provided"
  shows "(in_strs (status r) ACCEPTED_TERMS \<longrightarrow> classification r = provided)
       \<and> (\<not> in_strs (status r) ACCEPTED_TERMS \<and> provided = JArr entries \<and> entries \<noteq> [] \<longrightarrow>
            classification r =
              JArr (filter (\<lambda>item. \<not> entry_matches (nested_id (usage r)) item) entries))
       \<and> (\<not> in_strs (status r) ACCEPTED_TERMS \<and> \<not> truthy provided \<longrightarrow>
            classification r = JNull)"
proof -
  from assms(2) obtain fs where c: "chosen = JObj fs"
    by (cases chosen) auto
  show ?thesis
    using assms unfolding build_record_def c
    by (auto simp: ebind_def nested_id_def split: sum.splits if_splits dest!: strip_synonym_filter)
qed

theorem check_syn_classification_witness:
  "build_record True ''Bufo roseus'' (JArr [roseus]) =
     Inr \<lparr>origin_taxon = ''Bufo roseus'', taxon_id = JStr ''MHS2'', status = JStr ''synonym'',
          usage = JObj [(''id'', JStr ''MHS2''), (''status'', JStr ''synonym'')],
          classification =
            JArr [JObj [(''id'', JStr ''NPDX''), (''name'', JStr ''Bufotes viridis'')],
                  JObj [(''id'', JStr ''62G9''), (''name'', JStr ''Bufotes'')]]\<rparr>
   \<and> classification
       \<lparr>origin_taxon = ''Bufo roseus'', taxon_id = JStr ''MHS2'', status = JStr ''synonym'',
        usage = JObj [(''id'', JStr ''MHS2''), (''status'', JStr ''synonym'')],
        classification =
          JArr [JObj [(''id'', JStr ''NPDX''), (''name'', JStr ''Bufotes viridis'')],
                JObj [(''id'', JStr ''62G9''), (''name'', JStr ''Bufotes'')]]\<rparr> =
     JArr (filter (\<lambda>item. \<not> entry_matches (JStr ''MHS2'') item)
             [JObj [(''id'', JStr ''MHS2''), (''name'', JStr ''Bufo roseus'')],
              JObj [(''id'', JStr ''NPDX''), (''name'', JStr ''Bufotes viridis'')],
              JObj [(''id'', JStr ''62G9''), (''name'', JStr ''Bufotes'')]])"
  using check_syn_classification
    [where query = "''Bufo roseus''" and chosen = roseus and others = "[]"
       and r = "\<lparr>origin_taxon = ''Bufo roseus'', taxon_id = JStr ''MHS2'', status = JStr ''synonym'',
          usage = JObj [(''id'', JStr ''MHS2''), (''status'', JStr ''synonym'')],
          classification =
            JArr [JObj [(''id'', JStr ''NPDX''), (''name'', JStr ''Bufotes viridis'')],
                  JObj [(''id'', JStr ''62G9''), (''name'', JStr ''Bufotes'')]]\<rparr>"
       and provided =
         "JArr [JObj [(''id'', JStr ''MHS2''), (''name'', JStr ''Bufo roseus'')],
                JObj [(''id'', JStr ''NPDX''), (''name'', JStr ''Bufotes viridis'')],
                JObj [(''id'', JStr ''62G9''), (''name'', JStr ''Bufotes'')]]"
       and entries =
         "[JObj [(''id'', JStr ''MHS2''), (''name'', JStr ''Bufo roseus'')],
           JObj [(''id'', JStr ''NPDX''), (''name'', JStr ''Bufotes viridis'')],
           JObj [(''id'', JStr ''62G9''), (''name'', JStr ''Bufotes'')]]"]
  by (simp add: col_examples build_record_def in_strs_def ACCEPTED_TERMS_def nested_id_def
        entry_matches_def)

text \<open>
  The claim as the specification words it fails where the provider's classification of a
  name that is not accepted is the empty list: no entry carries the synonym's ID, yet the
  classification returned is null, not the empty list the provider gave.
\<close>

theorem check_syn_empty_classification_counterexample:
  "snd (COL_download True ''Bufo roseus'' bare_synonym_response []) =
     Inr [\<lparr>origin_taxon = ''Bufo roseus'', taxon_id = JStr ''MHS2'', status = JStr ''synonym'',
           usage = JObj [(''id'', JStr ''MHS2''), (''status'', JStr ''synonym'')],
           classification = JNull\<rparr>]
   \<and> JNull \<noteq> JArr (filter (\<lambda>item. \<not> entry_matches (JStr ''MHS2'') item) [])"
  by (simp add: COL_download_def response_json_def disambiguate_def col_examples
        build_record_def in_strs_def ACCEPTED_TERMS_def)

text \<open>
  C10. With more than one candidate, each a dictionary with a string ID, an answer that is
  neither \<^verbatim>\<open>Skip\<close> nor the ID of a candidate leaves no candidate, and reading the first
  one raises \<^verbatim>\<open>IndexError\<close>: no record list is returned.
\<close>

theorem COL_unknown_answer_IndexError:
  assumes "json_body resp = Some (JObj kvs)"
    and "map_of kvs ''empty'' = Some e" and "\<not> truthy e"
    and "map_of kvs ''result'' = Some (JArr items)" and "length items > 1"
    and "list_all (\<lambda>c. cand_id c \<noteq> None) items"
    and "id_input \<noteq> ''Skip''"
    and "list_all (\<lambda>c. cand_id c \<noteq> Some id_input) items"
  shows "snd (COL_download check_syn query resp id_input) = Inl IndexError"
proof -
  have "filter (\<lambda>c. cand_id c = Some id_input) items = []"
    using assms(8) by (induction items) auto
  then have "disambiguate id_input (JArr items) = Inr (JArr [])"
    using assms(5-7) by (simp add: disambiguate_candidates)
  then show ?thesis
    using COL_download_nonempty [OF assms(1-4)] by (simp add: build_record_def)
qed

theorem COL_unknown_answer_IndexError_witness:
  "snd (COL_download False ''Bufotes viridis'' two_matches_response ''npdx'') = Inl IndexError"
  using COL_unknown_answer_IndexError
    [where resp = two_matches_response
       and kvs = "[(''total'', JInt 2), (''result'', JArr [viridis, roseus]),
                   (''empty'', JBool False)]"
       and e = "JBool False" and items = "[viridis, roseus]" and id_input = "''npdx''"
       and check_syn = False and query = "''Bufotes viridis''"]
  by (simp add: col_examples)

section \<open>INaturalist: facts about the image ID\<close>

lemma split_acc_append:
  "py_split_acc [c] piece (xs @ c # ys) = py_split_acc [c] piece xs @ py_split_acc [c] [] ys"
  by (induction xs arbitrary: piece) auto

lemma split_acc_plain: "c \<notin> set a \<Longrightarrow> py_split_acc [c] piece a = [piece @ a]"
  by (induction a arbitrary: piece) auto

lemma split_url:
  assumes "c \<notin> set a" and "c \<notin> set b" and "pre = [] \<or> last pre = c"
  shows "\<exists>front. py_split (pre @ a @ c # b) [c] = front @ [a, b]"
proof (cases "pre = []")
  case True
  then show ?thesis
    using assms by (simp add: py_split_def split_acc_append split_acc_plain)
next
  case False
  with assms(3) obtain p where "pre = p @ [c]"
    by (metis append_butlast_last_id)
  then have "py_split (pre @ a @ c # b) [c] = py_split_acc [c] [] p @ [a, b]"
    using assms(1,2) split_acc_append [of c "[]" p "a @ c # b"]
    by (simp add: py_split_def split_acc_append split_acc_plain)
  then show ?thesis by blast
qed

lemma from_end_two:
  "from_end (front @ [a, b]) 2 = Inr a" "from_end (front @ [a, b]) (Suc 0) = Inr b"
  by (simp_all add: from_end_def nth_append)

lemma image_id_of_url:
  assumes "CHR ''/'' \<notin> set a" and "CHR ''/'' \<notin> set b" and "pre = [] \<or> last pre = CHR ''/''"
  shows "image_id_of (JStr (pre @ a @ ''/'' @ b)) =
           Inr (py_replace ''square'' ''medium'' (a @ ''/'' @ b))"
proof -
  obtain front where "py_split (pre @ a @ CHR ''/'' # b) ''/'' = front @ [a, b]"
    using split_url [OF assms] by blast
  then show ?thesis
    by (simp add: image_id_of_def from_end_two)
qed

lemma first_named_truthy: "first_named query items = Inr (Some x) \<Longrightarrow> truthy x"
proof (induction items)
  case Nil
  then show ?case by simp
next
  case (Cons y items)
  then show ?case
    by (cases y) (auto simp: ebind_def split: sum.splits if_splits option.splits)
qed

lemmas inat_examples =
  bufo_search_def alytes_photo_def alytes_taxon_def alytes_search_def hyla_taxon_def
  hyla_search_def hyla_photo_def hyla_entry_def hyla_first_def hyla_page_def

section \<open>INaturalist: the claims\<close>

text \<open>
  C1. The licence of the record returned is not always one of the seven allowed: line 79
  takes the default photo whenever its \<^verbatim>\<open>license_code\<close> is true, and nothing compares it with
  \<^verbatim>\<open>photo_license\<close>, as line 91 does for the photos of the occurrences. For a taxon whose
  default photo is in the public domain, code \<^verbatim>\<open>pd\<close>, the record carries that code.
\<close>

theorem default_photo_license_unchecked:
  "INaturalist_download ''Bufo bufo'' bufo_search hyla_page =
     Inr [\<lparr>taxon = ''Bufo bufo'', image_id = JStr ''777/medium.jpg'',
           license_code = JStr ''pd'', attribution = JStr ''no rights reserved''\<rparr>]
   \<and> \<not> in_strs (JStr ''pd'') photo_license"
  by (simp add: INaturalist_download_def response_json_def bufo_search_def photo_details_of_def
        image_id_of_def py_split_def from_end_def in_strs_def photo_license_def)

text \<open>
  C8. The \<open>image_id\<close> of a chosen photo comes from its URL alone. Every URL with a slash has
  the form \<open>pre @ a @ ''/'' @ b\<close> where \<open>a\<close> and \<open>b\<close>, its last two segments, hold no slash
  and \<open>pre\<close> is empty or ends with one. The \<open>image_id\<close> is then \<open>a\<close>, a slash and \<open>b\<close> with every
  \<^verbatim>\<open>square\<close> replaced by \<^verbatim>\<open>medium\<close>, both when the photo is the default photo of the taxon
  found and when it is the first licensed photo of the taxon's page; licence and attribution
  are the photo's.
\<close>

theorem image_id_last_two_segments:
  assumes "CHR ''/'' \<notin> set a" and "CHR ''/'' \<notin> set b" and "pre = [] \<or> last pre = CHR ''/''"
    and "getitem photo ''url'' = Inr (JStr (pre @ a @ ''/'' @ b))"
    and "getitem photo ''license_code'' = Inr code"
    and "getitem photo ''attribution'' = Inr attr"
    and "status_code resp = 200" and "json_body resp = Some body"
    and "getitem body ''results'' = Inr results" and "py_iter results = Inr items"
    and "first_named query items = Inr (Some tx)" and "getitem tx ''id'' = Inr tid"
  shows "(getitem tx ''default_photo'' = Inr photo \<and> truthy code \<longrightarrow>
            INaturalist_download query resp taxon_page =
              Inr [\<lparr>taxon = query,
                    image_id = JStr (py_replace ''square'' ''medium'' (a @ ''/'' @ b)),
                    license_code = code, attribution = attr\<rparr>])
       \<and> (getitem tx ''default_photo'' = Inr dp
          \<and> (dp = JNull \<or> getitem dp ''license_code'' = Inr dcode \<and> \<not> truthy dcode)
          \<and> status_code (taxon_page tid) = 200 \<and> json_body (taxon_page tid) = Some body'
          \<and> getitem body' ''results'' = Inr results' \<and> getitem0 results' = Inr first
          \<and> getitem first ''taxon_photos'' = Inr photos \<and> py_iter photos = Inr entries
          \<and> first_licensed entries = Inr (Some entry) \<and> getitem entry ''photo'' = Inr photo \<longrightarrow>
            INaturalist_download query resp taxon_page =
              Inr [\<lparr>taxon = query,
                    image_id = JStr (py_replace ''square'' ''medium'' (a @ ''/'' @ b)),
                    license_code = code, attribution = attr\<rparr>])"
proof -
  have details: "photo_details_of query photo =
      Inr \<lparr>taxon = query, image_id = JStr (py_replace ''square'' ''medium'' (a @ ''/'' @ b)),
           license_code = code, attribution = attr\<rparr>"
    using assms(4-6) image_id_of_url [OF assms(1-3)] by (simp add: photo_details_of_def)
  from assms(11) have tx: "truthy tx"
    by (rule first_named_truthy)
  have photo: "photo \<noteq> JNull"
    using assms(4) by auto
  show ?thesis
  proof (intro conjI impI)
    assume "getitem tx ''default_photo'' = Inr photo \<and> truthy code"
    then show "INaturalist_download query resp taxon_page =
              Inr [\<lparr>taxon = query,
                    image_id = JStr (py_replace ''square'' ''medium'' (a @ ''/'' @ b)),
                    license_code = code, attribution = attr\<rparr>]"
      using assms(5,7-12) tx photo details
      by (simp add: INaturalist_download_def response_json_def)
  next
    assume h: "getitem tx ''default_photo'' = Inr dp
          \<and> (dp = JNull \<or> getitem dp ''license_code'' = Inr dcode \<and> \<not> truthy dcode)
          \<and> status_code (taxon_page tid) = 200 \<and> json_body (taxon_page tid) = Some body'
          \<and> getitem body' ''results'' = Inr results' \<and> getitem0 results' = Inr first
          \<and> getitem first ''taxon_photos'' = Inr photos \<and> py_iter photos = Inr entries
          \<and> first_licensed entries = Inr (Some entry) \<and> getitem entry ''photo'' = Inr photo"
    then have "truthy entry" by (cases entry) auto
    with h have occ: "occurrence_photo query (taxon_page tid) =
      Inr \<lparr>taxon = query, image_id = JStr (py_replace ''square'' ''medium'' (a @ ''/'' @ b)),
           license_code = code, attribution = attr\<rparr>"
      using details by (simp add: occurrence_photo_def response_json_def)
    from h have info: "(if dp \<noteq> JNull
                  then ebind (getitem dp ''license_code'') (\<lambda>code.
                         Inr (if truthy code then dp else JNull))
                  else Inr JNull) = Inr JNull"
      by auto
    from h have dp: "getitem tx ''default_photo'' = Inr dp" by simp
    show "INaturalist_download query resp taxon_page =
              Inr [\<lparr>taxon = query,
                    image_id = JStr (py_replace ''square'' ''medium'' (a @ ''/'' @ b)),
                    license_code = code, attribution = attr\<rparr>]"
      using assms(7-12) tx dp
      by (simp add: INaturalist_download_def response_json_def info occ)
  qed
qed

theorem image_id_last_two_segments_witness:
  "INaturalist_download ''Alytes muletensis'' alytes_search hyla_page =
     Inr [\<lparr>taxon = ''Alytes muletensis'', image_id = JStr ''200/medium.jpg'',
           license_code = JStr ''cc-by'',
           attribution = JStr ''(c) A. Muletensis, some rights reserved (CC BY)''\<rparr>]
   \<and> INaturalist_download ''Hyla meridionalis'' hyla_search hyla_page =
     Inr [\<lparr>taxon = ''Hyla meridionalis'', image_id = JStr ''201/icon.jpg'',
           license_code = JStr ''cc-by-nc'',
           attribution = JStr ''(c) H. Meridionalis, some rights reserved (CC BY-NC)''\<rparr>]"
  using image_id_last_two_segments
    [where pre = "''https://inaturalist-open-data.s3.amazonaws.com/photos/''"
       and a = "''200''" and b = "''square.jpg''" and photo = alytes_photo
       and code = "JStr ''cc-by''"
       and attr = "JStr ''(c) A. Muletensis, some rights reserved (CC BY)''"
       and resp = alytes_search
       and body = "JObj [(''total_results'', JInt 2),
                         (''results'',
                            JArr [JObj [(''id'', JInt 25454), (''name'', JStr ''Alytes''),
                                        (''default_photo'', JNull)],
                                  alytes_taxon])]"
       and results = "JArr [JObj [(''id'', JInt 25454), (''name'', JStr ''Alytes''),
                                  (''default_photo'', JNull)],
                            alytes_taxon]"
       and items = "[JObj [(''id'', JInt 25454), (''name'', JStr ''Alytes''),
                           (''default_photo'', JNull)],
                     alytes_taxon]"
       and query = "''Alytes muletensis''" and tx = alytes_taxon and tid = "JInt 25455"
       and taxon_page = hyla_page]
    image_id_last_two_segments
    [where pre = "''https://inaturalist-open-data.s3.amazonaws.com/photos/''"
       and a = "''201''" and b = "''icon.jpg''" and photo = hyla_photo
       and code = "JStr ''cc-by-nc''"
       and attr = "JStr ''(c) H. Meridionalis, some rights reserved (CC BY-NC)''"
       and resp = hyla_search
       and body = "JObj [(''total_results'', JInt 1), (''results'', JArr [hyla_taxon])]"
       and results = "JArr [hyla_taxon]" and items = "[hyla_taxon]"
       and query = "''Hyla meridionalis''" and tx = hyla_taxon and tid = "JInt 24268"
       and taxon_page = hyla_page
       and body' = "JObj [(''total_results'', JInt 1), (''results'', JArr [hyla_first])]"
       and results' = "JArr [hyla_first]" and first = hyla_first
       and photos = "JArr [JObj [(''taxon_id'', JInt 24268),
                          (''photo'',
                             JObj [(''id'', JInt 199), (''license_code'', JNull),
                                   (''attribution'', JStr ''(c) somebody, all rights reserved''),
                                   (''url'', JStr ''https://static.inaturalist.org/photos/199/square.jpg'')])],
                    hyla_entry]"
       and entries = "[JObj [(''taxon_id'', JInt 24268),
                          (''photo'',
                             JObj [(''id'', JInt 199), (''license_code'', JNull),
                                   (''attribution'', JStr ''(c) somebody, all rights reserved''),
                                   (''url'', JStr ''https://static.inaturalist.org/photos/199/square.jpg'')])],
                    hyla_entry]"
       and entry = hyla_entry and dp = JNull]
  by (simp add: inat_examples in_strs_def photo_license_def)

section \<open>NCBI: facts about the retries and the ID discovery\<close>

lemma retry_loop_failures:
  assumes "\<forall>i<k. fetch_and_parse self env seq_id kind (a + int i) = Inl IncompleteRead"
    and "a + int k \<le> retries"
  shows "retry_loop self env seq_id kind retries a =
           (case retry_loop self env seq_id kind retries (a + int k) of
              (events, exit) \<Rightarrow>
                (concat (map (\<lambda>i. failed_attempt seq_id retries (a + int i)) [0..<k]) @ events,
                 exit))"
  using assms
proof (induction k arbitrary: a)
  case 0
  then show ?case by (simp split: prod.splits)
next
  case (Suc k)
  have first: "fetch_and_parse self env seq_id kind a = Inl IncompleteRead"
    using Suc.prems(1) [rule_format, of 0] by simp
  have rest: "\<forall>i<k. fetch_and_parse self env seq_id kind ((a + 1) + int i) = Inl IncompleteRead"
  proof (intro allI impI)
    fix i assume "i < k"
    then have "Suc i < Suc k" by simp
    from Suc.prems(1) [rule_format, OF this]
    have "fetch_and_parse self env seq_id kind (a + int (Suc i)) = Inl IncompleteRead" .
    moreover have "a + int (Suc i) = (a + 1) + int i" by simp
    ultimately show "fetch_and_parse self env seq_id kind ((a + 1) + int i) = Inl IncompleteRead"
      by (simp only:)
  qed
  have bound: "(a + 1) + int k \<le> retries" and lt: "a < retries"
    using Suc.prems(2) by simp_all
  have shift: "map (\<lambda>i. failed_attempt seq_id retries (a + int i)) [0..<Suc k] =
      failed_attempt seq_id retries a #
      map (\<lambda>i. failed_attempt seq_id retries ((a + 1) + int i)) [0..<k]"
  proof -
    have "[0..<Suc k] = 0 # map Suc [0..<k]"
      by (simp add: upt_rec [of 0 "Suc k"] map_Suc_upt del: upt_Suc)
    moreover have "\<And>i. a + int (Suc i) = (a + 1) + int i" by simp
    ultimately show ?thesis by (simp add: comp_def add.assoc del: upt_Suc)
  qed
  have idx: "a + int (Suc k) = (a + 1) + int k" by simp
  show ?case
    unfolding shift idx
    apply (subst retry_loop.simps)
    apply (simp only: lt first if_True sum.case Suc.IH [OF rest bound])
    apply (simp add: failed_attempt_def split: prod.splits)
    done
qed

lemma add_summaries_invariant:
  assumes "add_summaries limit summaries ids = (ids', ok)" and "distinct ids"
  shows "distinct ids' \<and> set ids \<subseteq> set ids'
       \<and> (\<forall>i \<in> set ids' - set ids.
            \<exists>s \<in> set summaries. \<exists>bp.
              summary_Id s = Some i \<and> summary_Length s = Some bp \<and> bp \<le> limit)"
  using assms
proof (induction summaries arbitrary: ids)
  case Nil
  then show ?case by auto
next
  case (Cons s rest)
  show ?case
  proof (cases "summary_Length s")
    case None
    with Cons.prems show ?thesis by auto
  next
    case (Some bp)
    show ?thesis
    proof (cases "bp \<le> limit")
      case False
      with Some Cons.prems have "add_summaries limit rest ids = (ids', ok)" by simp
      from Cons.IH [OF this Cons.prems(2)] show ?thesis by auto
    next
      case True
      show ?thesis
      proof (cases "summary_Id s")
        case None
        with Some True Cons.prems show ?thesis by auto
      next
        case (Some i)
        let ?next = "if i \<notin> set ids then ids @ [i] else ids"
        have step: "add_summaries limit rest ?next = (ids', ok)"
          using Cons.prems(1) \<open>summary_Length s = Some bp\<close> True Some by simp
        have d: "distinct ?next" using Cons.prems(2) by simp
        from Cons.IH [OF step d]
        have ih: "distinct ids'" "set ?next \<subseteq> set ids'"
          "\<forall>j \<in> set ids' - set ?next.
             \<exists>s \<in> set rest. \<exists>bp.
               summary_Id s = Some j \<and> summary_Length s = Some bp \<and> bp \<le> limit"
          by auto
        have "\<exists>s' \<in> set (s # rest). \<exists>bp.
               summary_Id s' = Some j \<and> summary_Length s' = Some bp \<and> bp \<le> limit"
          if "j \<in> set ids' - set ids" for j
        proof (cases "j = i")
          case True
          then show ?thesis
            using Some \<open>summary_Length s = Some bp\<close> \<open>bp \<le> limit\<close> by auto
        next
          case False
          with that have "j \<in> set ids' - set ?next" by auto
          with ih(3) show ?thesis by auto
        qed
        with ih(1,2) show ?thesis by (auto split: if_splits)
      qed
    qed
  qed
qed

lemma ids_pages_invariant:
  assumes "ids_pages self env query stride starts ids = (events, ids')" and "distinct ids"
    and "\<forall>i \<in> set ids. admitted self env query stride i"
  shows "distinct ids' \<and> (\<forall>i \<in> set ids'. admitted self env query stride i)"
  using assms
proof (induction starts arbitrary: ids events)
  case Nil
  then show ?case by simp
next
  case (Cons start starts)
  show ?case
  proof (cases "esearch_page env (db self) query start stride")
    case (Inl e)
    with Cons.prems show ?thesis by simp
  next
    case (Inr summaries)
    obtain added ok where a: "add_summaries (max_bp self) summaries ids = (added, ok)"
      by (cases "add_summaries (max_bp self) summaries ids")
    from add_summaries_invariant [OF a Cons.prems(2)]
    have inv: "distinct added"
      "\<forall>i \<in> set added - set ids.
         \<exists>s \<in> set summaries. \<exists>bp.
           summary_Id s = Some i \<and> summary_Length s = Some bp \<and> bp \<le> max_bp self"
      by auto
    have adm: "\<forall>i \<in> set added. admitted self env query stride i"
    proof
      fix i assume "i \<in> set added"
      show "admitted self env query stride i"
      proof (cases "i \<in> set ids")
        case True
        with Cons.prems(3) show ?thesis by simp
      next
        case False
        with \<open>i \<in> set added\<close> inv(2) Inr show ?thesis
          unfolding admitted_def by blast
      qed
    qed
    show ?thesis
    proof (cases ok)
      case True
      with Cons.prems(1) Inr a
      have "ids_pages self env query stride starts added = (events, ids')" by simp
      from Cons.IH [OF this inv(1) adm] show ?thesis .
    next
      case False
      with Cons.prems(1) Inr a have "ids' = added" by simp
      with inv(1) adm show ?thesis by simp
    qed
  qed
qed

section \<open>NCBI: the claims\<close>

text \<open>
  C2. A batch for which \<^verbatim>\<open>download_seq\<close> gives no result does not leave the run going:
  \<^verbatim>\<open>download_seq\<close> then returns \<^verbatim>\<open>None\<close>, line 41 iterates over it, and \<^verbatim>\<open>download\<close> ends with a
  \<^verbatim>\<open>TypeError\<close>. Here the first of two batches fails and the second, which would have given
  two sequences, is never fetched.
\<close>

theorem failed_batch_aborts_download:
  "snd (download_ids nucleotide flaky_provider ''Alytes[Organism]'' 2) =
     Inr [''1001'', ''1002'', ''1004'', ''1005'']
   \<and> split_to_batches [''1001'', ''1002'', ''1004'', ''1005''] 2 =
     [[''1001'', ''1002''], [''1004'', ''1005'']]
   \<and> download_seq nucleotide flaky_provider [''1001'', ''1002''] ''fasta'' 3 =
     ([Efetch [''1001'', ''1002''] 0, Log_error Error_downloading, Print Error_downloading], None)
   \<and> snd (download_seq nucleotide flaky_provider [''1004'', ''1005''] ''fasta'' 3) =
     Some [Fasta_block ''>1004 Alytes\<newline>ACGT'', Fasta_block ''>1005 Alytes\<newline>TTGA'']
   \<and> NCBI_download nucleotide flaky_provider ''Alytes[Organism]'' =
     ([Efetch [''1001'', ''1002''] 0, Log_error Error_downloading, Print Error_downloading],
      Inl TypeError)"
  by (simp add: NCBI_download_def download_ids_def py_range_def nucleotide_def
        flaky_provider_def download_seq_def fetch_and_parse_def py_split_def upt_rec)

text \<open>
  C3. \<^verbatim>\<open>download_seq\<close> with its three attempts, on any batch. When the attempts 0 to \<open>k - 1\<close>,
  fewer than three, end in \<^verbatim>\<open>IncompleteRead\<close> and attempt \<open>k\<close> succeeds, the result of attempt
  \<open>k\<close> is returned, and each failed attempt is followed by a warning and a sleep of two
  seconds before the next one. When all three attempts end in \<^verbatim>\<open>IncompleteRead\<close>, nothing is
  returned and the failure is logged as an error.
\<close>

theorem download_seq_retries_IncompleteRead:
  "(k < 3
      \<and> (\<forall>i<k. fetch_and_parse self env seq_id kind (int i) = Inl IncompleteRead)
      \<and> fetch_and_parse self env seq_id kind (int k) = Inr seqs \<longrightarrow>
        download_seq self env seq_id kind 3 =
          (concat (map (\<lambda>i. failed_attempt seq_id 3 (int i)) [0..<k]) @ [Efetch seq_id (int k)],
           Some seqs))
   \<and> ((\<forall>i<3. fetch_and_parse self env seq_id kind (int i) = Inl IncompleteRead) \<longrightarrow>
        download_seq self env seq_id kind 3 =
          (concat (map (\<lambda>i. failed_attempt seq_id 3 (int i)) [0..<3])
             @ [Log_error (Failed_to_download seq_id 3), Print (Failed_to_download seq_id 3)],
           None))"
proof (intro conjI impI)
  assume h: "k < 3
      \<and> (\<forall>i<k. fetch_and_parse self env seq_id kind (int i) = Inl IncompleteRead)
      \<and> fetch_and_parse self env seq_id kind (int k) = Inr seqs"
  then have "retry_loop self env seq_id kind 3 (int k) = ([Efetch seq_id (int k)], Returned seqs)"
    by (subst retry_loop.simps) simp
  moreover have "retry_loop self env seq_id kind 3 0 =
           (case retry_loop self env seq_id kind 3 (0 + int k) of
              (events, exit) \<Rightarrow>
                (concat (map (\<lambda>i. failed_attempt seq_id 3 (0 + int i)) [0..<k]) @ events,
                 exit))"
    using h by (intro retry_loop_failures) simp_all
  ultimately show "download_seq self env seq_id kind 3 =
          (concat (map (\<lambda>i. failed_attempt seq_id 3 (int i)) [0..<k]) @ [Efetch seq_id (int k)],
           Some seqs)"
    by (simp add: download_seq_def)
next
  assume h: "\<forall>i<3. fetch_and_parse self env seq_id kind (int i) = Inl IncompleteRead"
  have "retry_loop self env seq_id kind 3 3 = ([], Left_loop 3)"
    by (subst retry_loop.simps) simp
  moreover have "retry_loop self env seq_id kind 3 0 =
           (case retry_loop self env seq_id kind 3 (0 + int 3) of
              (events, exit) \<Rightarrow>
                (concat (map (\<lambda>i. failed_attempt seq_id 3 (0 + int i)) [0..<3]) @ events,
                 exit))"
    using h by (intro retry_loop_failures) simp_all
  ultimately show "download_seq self env seq_id kind 3 =
          (concat (map (\<lambda>i. failed_attempt seq_id 3 (int i)) [0..<3])
             @ [Log_error (Failed_to_download seq_id 3), Print (Failed_to_download seq_id 3)],
           None)"
    by (simp add: download_seq_def)
qed

theorem download_seq_retries_IncompleteRead_witness:
  "download_seq nucleotide flaky_provider [''1004'', ''1005''] ''fasta'' 3 =
     ([Efetch [''1004'', ''1005''] 0, Log_warning (IncompleteRead_retrying 1 3),
       Print (IncompleteRead_retrying 1 3), Sleep 2,
       Efetch [''1004'', ''1005''] 1, Log_warning (IncompleteRead_retrying 2 3),
       Print (IncompleteRead_retrying 2 3), Sleep 2,
       Efetch [''1004'', ''1005''] 2],
      Some [Fasta_block ''>1004 Alytes\<newline>ACGT'', Fasta_block ''>1005 Alytes\<newline>TTGA''])
   \<and> download_seq nucleotide flaky_provider [''1003''] ''fasta'' 3 =
     ([Efetch [''1003''] 0, Log_warning (IncompleteRead_retrying 1 3),
       Print (IncompleteRead_retrying 1 3), Sleep 2,
       Efetch [''1003''] 1, Log_warning (IncompleteRead_retrying 2 3),
       Print (IncompleteRead_retrying 2 3), Sleep 2,
       Efetch [''1003''] 2, Log_warning (IncompleteRead_retrying 3 3),
       Print (IncompleteRead_retrying 3 3), Sleep 2,
       Log_error (Failed_to_download [''1003''] 3), Print (Failed_to_download [''1003''] 3)],
      None)"
  using download_seq_retries_IncompleteRead
    [where k = 2 and self = nucleotide and env = flaky_provider
       and seq_id = "[''1004'', ''1005'']" and kind = "''fasta''"
       and seqs = "[Fasta_block ''>1004 Alytes\<newline>ACGT'', Fasta_block ''>1005 Alytes\<newline>TTGA'']"]
    download_seq_retries_IncompleteRead
    [where k = 0 and self = nucleotide and env = flaky_provider
       and seq_id = "[''1003'']" and kind = "''fasta''" and seqs = "[]"]
  by (simp add: nucleotide_def flaky_provider_def fetch_and_parse_def py_split_def
        failed_attempt_def upt_rec)

text \<open>
  C7. The IDs \<^verbatim>\<open>download_ids\<close> returns are pairwise different, and each of them was taken
  from a summary of a page of the search whose length is at most \<open>max_bp\<close>. So an ID whose
  summaries are all longer than \<open>max_bp\<close> is not returned.
\<close>

theorem download_ids_length_filtered_distinct:
  assumes "snd (download_ids self env query stride) = Inr ids"
  shows "distinct ids
       \<and> (\<forall>i \<in> set ids.
            \<exists>start summaries s bp.
              esearch_page env (db self) query start stride = Inr summaries \<and> s \<in> set summaries
            \<and> summary_Id s = Some i \<and> summary_Length s = Some bp \<and> bp \<le> max_bp self)
       \<and> ((\<forall>start summaries s bp.
              esearch_page env (db self) query start stride = Inr summaries \<and> s \<in> set summaries
            \<and> summary_Id s = Some j \<and> summary_Length s = Some bp \<longrightarrow> max_bp self < bp) \<longrightarrow>
            j \<notin> set ids)"
proof -
  from assms obtain total starts events where
    "py_range total stride = Inr starts"
    "ids_pages self env query stride starts [] = (events, ids)"
    by (auto simp: download_ids_def split: sum.splits prod.splits)
  from ids_pages_invariant [OF this(2)]
  have d: "distinct ids" and a: "\<forall>i \<in> set ids. admitted self env query stride i"
    by simp_all
  from a have pos: "\<forall>i \<in> set ids.
            \<exists>start summaries s bp.
              esearch_page env (db self) query start stride = Inr summaries \<and> s \<in> set summaries
            \<and> summary_Id s = Some i \<and> summary_Length s = Some bp \<and> bp \<le> max_bp self"
    by (simp add: admitted_def)
  have neg: "j \<notin> set ids"
    if h: "\<forall>start summaries s bp.
              esearch_page env (db self) query start stride = Inr summaries \<and> s \<in> set summaries
            \<and> summary_Id s = Some j \<and> summary_Length s = Some bp \<longrightarrow> max_bp self < bp"
  proof
    assume "j \<in> set ids"
    with pos obtain start summaries s bp where
      "esearch_page env (db self) query start stride = Inr summaries" "s \<in> set summaries"
      "summary_Id s = Some j" "summary_Length s = Some bp" "bp \<le> max_bp self"
      by blast
    with h have "max_bp self < bp" by blast
    with \<open>bp \<le> max_bp self\<close> show False by simp
  qed
  from d pos neg show ?thesis by blast
qed

theorem download_ids_length_filtered_distinct_witness:
  "snd (download_ids nucleotide flaky_provider ''Alytes[Organism]'' 2) =
     Inr [''1001'', ''1002'', ''1004'', ''1005'']
   \<and> distinct [''1001'', ''1002'', ''1004'', ''1005'']
   \<and> (\<exists>start summaries s bp.
        esearch_page flaky_provider (db nucleotide) ''Alytes[Organism]'' start 2 = Inr summaries
      \<and> s \<in> set summaries \<and> summary_Id s = Some ''1004'' \<and> summary_Length s = Some bp
      \<and> bp \<le> max_bp nucleotide)"
  using download_ids_length_filtered_distinct
    [where self = nucleotide and env = flaky_provider and query = "''Alytes[Organism]''"
       and stride = 2 and ids = "[''1001'', ''1002'', ''1004'', ''1005'']" and j = "''1003''"]
  by (simp add: download_ids_def py_range_def nucleotide_def flaky_provider_def upt_rec)

end
